theory Spec2Isabelle
  imports Complex_Main
begin

section \<open>Python values used by chatbot.py\<close>

text \<open>
  The exceptions that can leave \<^verbatim>\<open>Chatbot\<close>'s methods: an out-of-range list
  read, \<^verbatim>\<open>int()\<close> on a string that is no integer literal, and \<^verbatim>\<open>sys.exit\<close>.
\<close>

datatype py_error = IndexError | ValueError | SystemExit

text \<open>
  \<^verbatim>\<open>str.isspace\<close> on the code points below 256 (a \<^typ>\<open>char\<close> stands for one
  code point of that range): TAB, LF, VT, FF, CR, FS, GS, RS, US, space, NEL, NBSP.
\<close>

definition py_isspace :: "char \<Rightarrow> bool" where
  "py_isspace c = (c \<in> set [CHR 0x09, CHR 0x0A, CHR 0x0B, CHR 0x0C, CHR 0x0D,
                              CHR 0x1C, CHR 0x1D, CHR 0x1E, CHR 0x1F, CHR 0x20,
                              CHR 0x85, CHR 0xA0])"

text \<open>\<^verbatim>\<open>s.strip()\<close>: leading and trailing whitespace removed.\<close>

definition py_strip :: "string \<Rightarrow> string" where
  "py_strip s = rev (dropWhile py_isspace (rev (dropWhile py_isspace s)))"

text \<open>\<^verbatim>\<open>str(x)\<close> for \<^verbatim>\<open>x: Optional[str]\<close>.\<close>

fun py_str :: "string option \<Rightarrow> string" where
  "py_str None = ''None''"
| "py_str (Some s) = s"

definition is_digit :: "char \<Rightarrow> bool" where
  "is_digit c = (c \<in> set ''0123456789'')"

definition digit_val :: "char \<Rightarrow> nat" where
  "digit_val c = of_char c - 48"

text \<open>
  The digits of an integer literal after its first digit: digits, with single
  underscores allowed between two digits. The flag says that the previous character
  was an underscore, so that a digit must follow.
\<close>

fun int_digits :: "nat \<Rightarrow> bool \<Rightarrow> string \<Rightarrow> nat option" where
  "int_digits acc after_us [] = (if after_us then None else Some acc)"
| "int_digits acc after_us (c # cs) =
     (if is_digit c then int_digits (10 * acc + digit_val c) False cs
      else if c = CHR ''_'' \<and> \<not> after_us then int_digits acc True cs
      else None)"

text \<open>
  \<^verbatim>\<open>int(s)\<close> for a string, base 10: surrounding whitespace is ignored, one sign is
  allowed, then the digits. \<open>None\<close> is Python's \<^verbatim>\<open>ValueError\<close>. (Digits outside
  ASCII and the interpreter's limit on the number of digits are not modelled.)
\<close>

definition py_int :: "string \<Rightarrow> int option" where
  "py_int s =
     (let t = py_strip s;
          neg = (case t of c # _ \<Rightarrow> c = CHR ''-'' | [] \<Rightarrow> False);
          body = (case t of c # cs \<Rightarrow> if c = CHR ''-'' \<or> c = CHR ''+'' then cs else t | [] \<Rightarrow> [])
      in case body of
           [] \<Rightarrow> None
         | d # ds \<Rightarrow>
             if is_digit d
             then map_option (\<lambda>n. if neg then - int n else int n) (int_digits (digit_val d) False ds)
             else None)"

text \<open>\<^verbatim>\<open>str(i)\<close> for a non-negative integer, as the f-string of a target's name uses it.\<close>

fun show_nat :: "nat \<Rightarrow> string" where
  "show_nat n = (if n < 10 then [char_of (48 + n)] else show_nat (n div 10) @ [char_of (48 + n mod 10)])"

section \<open>The pool: targets, cursor, and the world around them\<close>

text \<open>
  An \<^verbatim>\<open>OpenAI\<close> client object. The class defines no \<^verbatim>\<open>__eq__\<close>, so \<^verbatim>\<open>==\<close> on
  clients is object identity: the first field is the object's identity, and two clients
  built from the same URL and key are still different.
\<close>

datatype client = Client (client_id: nat) (client_base_url: "string option") (client_api_key: string)

text \<open>
  One entry of \<^verbatim>\<open>self.api_states\<close>. The key \<^verbatim>\<open>cooldown_until\<close> is absent
  (\<open>None\<close>) until a rate-limit failure writes it; \<^verbatim>\<open>model_name\<close> is whatever the
  configuration held under \<^verbatim>\<open>model\<close>, possibly nothing.
\<close>

record api_info =
  is_available :: bool
  last_failure_time :: real
  client :: client
  model_name :: "string option"
  name :: string
  cooldown_until :: "int option"

record chatbot =
  model :: string
  api_states :: "api_info list"
  current_api_index :: nat
  cooldown_period :: int
  max_attempts_per_prompt :: nat
  temperature :: real
  max_tokens :: int

text \<open>What the logger receives, one constructor per logging call of chatbot.py.\<close>

datatype log_event =
    NoClientsInitialized
  | IncompleteConfiguration string
  | InitFailed nat string
  | CooldownOver string
  | AllUnavailable
  | Attempting string nat
  | RateLimitReached string
  | CoolingFor string int
  | PermanentStatusError string
  | AllDisabled
  | APIErrorReturned string
  | UnknownError string
  | Cooling string
  | AllFailed

type_synonym message = "string \<times> string"

record request =
  req_client :: client
  req_model :: "string option"
  req_messages :: "message list"
  req_temperature :: real
  req_max_tokens :: int

text \<open>
  The object together with what it touches outside itself: how many times
  \<^verbatim>\<open>time.time()\<close> has been read, the requests that went to the upstream transport
  (oldest first), and the log (oldest first). The clock itself is a function from the number of the reading to the
  time read; the transport is a function from the number of earlier requests and the
  request to what \<^verbatim>\<open>client.chat.completions.create\<close> does.
\<close>

record world =
  self :: chatbot
  ticks :: nat
  sent :: "request list"
  logged :: "log_event list"

type_synonym clock = "nat \<Rightarrow> real"

text \<open>
  What one upstream call does: it returns a completion (the \<^verbatim>\<open>message.content\<close> of
  each of its choices), or raises \<^verbatim>\<open>RateLimitError\<close> (with the response's
  \<^verbatim>\<open>retry-after\<close> header, if any), another \<^verbatim>\<open>APIStatusError\<close>, another
  \<^verbatim>\<open>APIError\<close>, or any other \<^verbatim>\<open>Exception\<close>.
\<close>

datatype outcome =
    Completion "string option list"
  | RateLimitError "string option"
  | APIStatusError
  | APIError
  | OtherException

type_synonym transport = "nat \<Rightarrow> request \<Rightarrow> outcome"

definition info :: "log_event \<Rightarrow> world \<Rightarrow> world" where
  "info e w = w\<lparr>logged := logged w @ [e]\<rparr>"

definition set_api_states :: "api_info list \<Rightarrow> world \<Rightarrow> world" where
  "set_api_states xs w = w\<lparr>self := (self w)\<lparr>api_states := xs\<rparr>\<rparr>"

definition set_current_api_index :: "nat \<Rightarrow> world \<Rightarrow> world" where
  "set_current_api_index i w = w\<lparr>self := (self w)\<lparr>current_api_index := i\<rparr>\<rparr>"

section \<open>Construction\<close>

text \<open>The per-model configuration dictionary; a missing key is \<open>None\<close>.\<close>

record llm_config =
  cfg_base_url :: "string option"
  cfg_model :: "string option"
  cfg_api_keys :: "string list option"
  cfg_temperature :: "real option"
  cfg_max_tokens :: "int option"

definition no_config :: llm_config where
  "no_config = \<lparr>cfg_base_url = None, cfg_model = None, cfg_api_keys = None,
                 cfg_temperature = None, cfg_max_tokens = None\<rparr>"

text \<open>\<^verbatim>\<open>not x\<close> for an optional string or list: absent or empty.\<close>

fun falsy :: "'a list option \<Rightarrow> bool" where
  "falsy None = True"
| "falsy (Some xs) = (xs = [])"

text \<open>
  The loop of \<^verbatim>\<open>_initialize_clients\<close> over \<^verbatim>\<open>enumerate(api_keys)\<close>. The
  constructor of the client library is a parameter: \<open>openai base_url api_key\<close> says
  whether \<^verbatim>\<open>OpenAI(base_url=..., api_key=...)\<close> returns an object (otherwise it
  raises, and the key is logged and dropped).
\<close>

fun add_clients :: "(string option \<Rightarrow> string \<Rightarrow> bool) \<Rightarrow> string option \<Rightarrow> string option \<Rightarrow>
    nat \<Rightarrow> string list \<Rightarrow> world \<Rightarrow> world" where
  "add_clients openai base_url model_nm i [] w = w"
| "add_clients openai base_url model_nm i (api_key # keys) w =
     add_clients openai base_url model_nm (Suc i) keys
       (if openai base_url api_key
        then set_api_states
               (api_states (self w) @
                [\<lparr>is_available = True, last_failure_time = 0,
                  client = Client i base_url api_key,
                  model_name = model_nm,
                  name = model (self w) @ ''-'' @ show_nat i @ ''@'' @ py_str base_url,
                  cooldown_until = None\<rparr>]) w
        else info (InitFailed i (model (self w))) w)"

definition initialize_clients :: "(string option \<Rightarrow> string \<Rightarrow> bool) \<Rightarrow> llm_config \<Rightarrow> world \<Rightarrow> world" where
  "initialize_clients openai llm_config_dict w =
     (let base_url = cfg_base_url llm_config_dict;
          model_nm = cfg_model llm_config_dict;
          api_keys = (case cfg_api_keys llm_config_dict of None \<Rightarrow> [] | Some ks \<Rightarrow> ks);
          w1 = w\<lparr>self := (self w)
                 \<lparr>temperature := (case cfg_temperature llm_config_dict of
                                    None \<Rightarrow> temperature (self w) | Some t \<Rightarrow> t),
                  max_tokens := (case cfg_max_tokens llm_config_dict of
                                   None \<Rightarrow> max_tokens (self w) | Some m \<Rightarrow> m)\<rparr>\<rparr>;
          w2 = (if falsy base_url \<or> falsy model_nm \<or> api_keys = []
                then info (IncompleteConfiguration (model (self w1))) w1 else w1)
      in add_clients openai base_url model_nm 0 api_keys w2)"

text \<open>
  \<^verbatim>\<open>Chatbot.__init__\<close>: \<open>llm_config\<close> maps model names to configuration
  dictionaries; \<open>log0\<close> is the log the object is created under.
\<close>

definition init :: "(string option \<Rightarrow> string \<Rightarrow> bool) \<Rightarrow> string \<Rightarrow> (string \<rightharpoonup> llm_config) \<Rightarrow>
    log_event list \<Rightarrow> py_error option \<times> world" where
  "init openai model0 llm_config log0 =
     (let w = initialize_clients openai
                (case llm_config model0 of None \<Rightarrow> no_config | Some c \<Rightarrow> c)
                \<lparr>self = \<lparr>model = model0, api_states = [], current_api_index = 0,
                          cooldown_period = 300, max_attempts_per_prompt = 5,
                          temperature = 0.7, max_tokens = 4096\<rparr>,
                 ticks = 0, sent = [], logged = log0\<rparr>
      in if api_states (self w) = []
         then (Some SystemExit, info NoClientsInitialized w)
         else (None, w))"

section \<open>Selection\<close>

type_synonym selection = "client option \<times> string option \<times> string option"

text \<open>The triple \<^verbatim>\<open>(client, model_name, name)\<close> returned for a target.\<close>

definition selected :: "api_info \<Rightarrow> selection" where
  "selected a = (Some (client a), model_name a, Some (name a))"

text \<open>
  The cooldown a target is held to:
  \<^verbatim>\<open>api_info.get("cooldown_until", self.cooldown_period)\<close>.
\<close>

definition cooldown_of :: "chatbot \<Rightarrow> api_info \<Rightarrow> int" where
  "cooldown_of b a = (case cooldown_until a of None \<Rightarrow> cooldown_period b | Some d \<Rightarrow> d)"

text \<open>
  Lines 86 to 94: the target under the cursor is made available again when it is
  unavailable and its cooldown is over. The clock is read only when the target is
  unavailable (\<^verbatim>\<open>and\<close> evaluates its right operand only then).
\<close>

definition refresh :: "clock \<Rightarrow> nat \<Rightarrow> world \<Rightarrow> world" where
  "refresh clk i w =
     (let a = api_states (self w) ! i in
      if is_available a then w
      else
        let now = clk (ticks w); w1 = w\<lparr>ticks := Suc (ticks w)\<rparr> in
        if now - last_failure_time a > real_of_int (cooldown_of (self w) a)
        then info (CooldownOver (name a))
               (set_api_states
                  ((api_states (self w))[i := a\<lparr>is_available := True, last_failure_time := 0\<rparr>]) w1)
        else w1)"

text \<open>
  The loop \<^verbatim>\<open>for _ in range(num_apis)\<close> of \<^verbatim>\<open>_get_next_available_client\<close>,
  with the number of iterations left. \<^verbatim>\<open>self.api_states[self._current_api_index]\<close>
  raises \<^verbatim>\<open>IndexError\<close> when the cursor is not below the length of the list (the
  cursor is never negative).
\<close>

fun scan :: "clock \<Rightarrow> nat \<Rightarrow> nat \<Rightarrow> world \<Rightarrow> (py_error + selection) \<times> world" where
  "scan clk num_apis 0 w = (Inr (None, None, None), w)"
| "scan clk num_apis (Suc k) w =
     (let i = current_api_index (self w) in
      if length (api_states (self w)) \<le> i then (Inl IndexError, w)
      else
        let w1 = refresh clk i w;
            a = api_states (self w1) ! i;
            w2 = set_current_api_index ((i + 1) mod num_apis) w1
        in if is_available a
           then (Inr (selected a), w2)
           else scan clk num_apis k w2)"

definition get_next_available_client :: "clock \<Rightarrow> world \<Rightarrow> (py_error + selection) \<times> world" where
  "get_next_available_client clk w =
     (let num_apis = length (api_states (self w)) in
      if num_apis = 0 then (Inr (None, None, None), w)
      else scan clk num_apis num_apis w)"

text \<open>A number of successive calls of \<^verbatim>\<open>_get_next_available_client\<close>, with their results.\<close>

fun select_many :: "clock \<Rightarrow> nat \<Rightarrow> world \<Rightarrow> (py_error + selection) list \<times> world" where
  "select_many clk 0 w = ([], w)"
| "select_many clk (Suc n) w =
     (case get_next_available_client clk w of
        (r, w1) \<Rightarrow> (case select_many clk n w1 of (rs, w2) \<Rightarrow> (r # rs, w2)))"

section \<open>The call\<close>

definition default_system_prompt :: string where
  "default_system_prompt = ''You are a helpful assistant.''"

definition sentinel :: string where
  "sentinel = ''Error: Could not generate content after multiple attempts.''"

text \<open>Lines 113 to 116.\<close>

definition build_messages :: "string \<Rightarrow> string \<Rightarrow> message list" where
  "build_messages prompt system_prompt =
     (if system_prompt \<noteq> [] then [(''system'', system_prompt)] else []) @ [(''user'', prompt)]"

text \<open>
  \<^verbatim>\<open>for api_info in self.api_states: if api_info["client"] == client: ... break\<close>:
  the position of the first entry that holds the client, if there is one.
\<close>

fun first_with :: "client \<Rightarrow> api_info list \<Rightarrow> nat option" where
  "first_with c [] = None"
| "first_with c (a # as) =
     (if client a = c then Some 0 else map_option Suc (first_with c as))"

text \<open>How one pass through the body of the attempt loop ends.\<close>

datatype flow = Return string | Raise py_error | Break | Continue

text \<open>
  The handler of \<^verbatim>\<open>RateLimitError\<close>, lines 140 to 157. \<^verbatim>\<open>int(retry_after)\<close> is
  evaluated inside the handler; a \<^verbatim>\<open>ValueError\<close> there is raised from an
  \<^verbatim>\<open>except\<close> clause, where the later clauses of the same \<^verbatim>\<open>try\<close> do not apply.
\<close>

definition on_rate_limit :: "clock \<Rightarrow> client \<Rightarrow> string \<Rightarrow> string option \<Rightarrow> world \<Rightarrow> flow \<times> world" where
  "on_rate_limit clk c api_name retry_after w0 =
     (let w = info (RateLimitReached api_name) w0 in
      case first_with c (api_states (self w)) of
        None \<Rightarrow> (Continue, w)
      | Some j \<Rightarrow>
          (case (if \<not> falsy retry_after then py_int (py_str retry_after)
                 else Some (cooldown_period (self w))) of
             None \<Rightarrow> (Raise ValueError, w)
           | Some delay \<Rightarrow>
               (Continue,
                info (CoolingFor api_name delay)
                  (set_api_states
                     ((api_states (self w))
                        [j := (api_states (self w) ! j)
                                \<lparr>is_available := False, last_failure_time := clk (ticks w),
                                 cooldown_until := Some delay\<rparr>])
                     (w\<lparr>ticks := Suc (ticks w)\<rparr>)))))"

text \<open>The handler of \<^verbatim>\<open>APIStatusError\<close>, lines 159 to 169.\<close>

definition on_status_error :: "client \<Rightarrow> string \<Rightarrow> world \<Rightarrow> flow \<times> world" where
  "on_status_error c api_name w0 =
     (let w = set_api_states (filter (\<lambda>a. client a \<noteq> c) (api_states (self w0)))
                (info (PermanentStatusError api_name) w0)
      in if api_states (self w) = [] then (Break, info AllDisabled w) else (Continue, w))"

text \<open>
  The handlers of \<^verbatim>\<open>APIError\<close> and of \<^verbatim>\<open>Exception\<close>, lines 171 to 193: the two
  differ in the first message they log, which is the parameter \<open>e\<close>.
\<close>

definition on_other_error :: "clock \<Rightarrow> client \<Rightarrow> string \<Rightarrow> log_event \<Rightarrow> world \<Rightarrow> flow \<times> world" where
  "on_other_error clk c api_name e w0 =
     (let w = info e w0 in
      case first_with c (api_states (self w)) of
        None \<Rightarrow> (Continue, w)
      | Some j \<Rightarrow>
          (Continue,
           info (Cooling api_name)
             (set_api_states
                ((api_states (self w))
                   [j := (api_states (self w) ! j)
                           \<lparr>is_available := False, last_failure_time := clk (ticks w)\<rparr>])
                (w\<lparr>ticks := Suc (ticks w)\<rparr>))))"

text \<open>
  The body of \<^verbatim>\<open>for attempt in range(self.max_attempts_per_prompt)\<close>, lines 119
  to 193. An exception of \<^verbatim>\<open>_get_next_available_client\<close> is outside the
  \<^verbatim>\<open>try\<close>; \<^verbatim>\<open>completion.choices[0]\<close> on an empty list is inside it and is
  caught as an unknown error.
\<close>

definition attempt_body :: "clock \<Rightarrow> transport \<Rightarrow> message list \<Rightarrow> nat \<Rightarrow> world \<Rightarrow> flow \<times> world" where
  "attempt_body clk tr messages attempt w =
     (case get_next_available_client clk w of
        (Inl e, w1) \<Rightarrow> (Raise e, w1)
      | (Inr (None, _, _), w1) \<Rightarrow> (Break, info AllUnavailable w1)
      | (Inr (Some c, model_nm, api_nm), w1) \<Rightarrow>
          (let api_name = py_str api_nm;
               w2 = info (Attempting api_name (Suc attempt)) w1;
               rq = \<lparr>req_client = c, req_model = model_nm, req_messages = messages,
                     req_temperature = temperature (self w2), req_max_tokens = max_tokens (self w2)\<rparr>;
               w3 = w2\<lparr>sent := sent w2 @ [rq]\<rparr>
           in case tr (length (sent w2)) rq of
                Completion [] \<Rightarrow> on_other_error clk c api_name (UnknownError api_name) w3
              | Completion (content # _) \<Rightarrow> (Return (py_strip (py_str content)), w3)
              | RateLimitError retry_after \<Rightarrow> on_rate_limit clk c api_name retry_after w3
              | APIStatusError \<Rightarrow> on_status_error c api_name w3
              | APIError \<Rightarrow> on_other_error clk c api_name (APIErrorReturned api_name) w3
              | OtherException \<Rightarrow> on_other_error clk c api_name (UnknownError api_name) w3))"

text \<open>
  The attempt loop: \<open>attempt\<close> is the loop variable, \<open>k\<close> the number of iterations
  left. \<open>Continue\<close> after the last iteration is the loop running out.
\<close>

fun attempts :: "clock \<Rightarrow> transport \<Rightarrow> message list \<Rightarrow> nat \<Rightarrow> nat \<Rightarrow> world \<Rightarrow> flow \<times> world" where
  "attempts clk tr messages attempt 0 w = (Continue, w)"
| "attempts clk tr messages attempt (Suc k) w =
     (case attempt_body clk tr messages attempt w of
        (Continue, w1) \<Rightarrow> attempts clk tr messages (Suc attempt) k w1
      | (f, w1) \<Rightarrow> (f, w1))"

text \<open>\<^verbatim>\<open>Chatbot.call\<close>: \<open>Inl\<close> is an exception leaving the method.\<close>

definition call :: "clock \<Rightarrow> transport \<Rightarrow> string \<Rightarrow> string \<Rightarrow> world \<Rightarrow> (py_error + string) \<times> world" where
  "call clk tr prompt system_prompt w =
     (case attempts clk tr (build_messages prompt system_prompt) 0 (max_attempts_per_prompt (self w)) w of
        (Return s, w1) \<Rightarrow> (Inr s, w1)
      | (Raise e, w1) \<Rightarrow> (Inl e, w1)
      | (_, w1) \<Rightarrow> (Inr sentinel, info AllFailed w1))"

text \<open>What was logged, and what was sent upstream, between an earlier world and a later one.\<close>

definition events_of :: "world \<Rightarrow> world \<Rightarrow> log_event list" where
  "events_of w w' = drop (length (logged w)) (logged w')"

definition requests_of :: "world \<Rightarrow> world \<Rightarrow> request list" where
  "requests_of w w' = drop (length (sent w)) (sent w')"

section \<open>Concrete pools, clocks and transports\<close>

text \<open>A client library whose constructor accepts every URL and key.\<close>

definition always_constructs :: "string option \<Rightarrow> string \<Rightarrow> bool" where
  "always_constructs base_url api_key = True"

definition config_one_key :: "string \<rightharpoonup> llm_config" where
  "config_one_key = [''m'' \<mapsto> \<lparr>cfg_base_url = Some ''u'', cfg_model = Some ''gpt'',
      cfg_api_keys = Some [''k0''], cfg_temperature = None, cfg_max_tokens = None\<rparr>]"

definition config_two_keys :: "string \<rightharpoonup> llm_config" where
  "config_two_keys = [''m'' \<mapsto> \<lparr>cfg_base_url = Some ''u'', cfg_model = Some ''gpt'',
      cfg_api_keys = Some [''k0'', ''k1''], cfg_temperature = None, cfg_max_tokens = None\<rparr>]"

text \<open>Configurations that lack a required field: the model, or the URL.\<close>

definition config_no_model :: "string \<rightharpoonup> llm_config" where
  "config_no_model = [''m'' \<mapsto> \<lparr>cfg_base_url = Some ''u'', cfg_model = None,
      cfg_api_keys = Some [''k0''], cfg_temperature = None, cfg_max_tokens = None\<rparr>]"

definition config_no_base_url :: "string \<rightharpoonup> llm_config" where
  "config_no_base_url = [''m'' \<mapsto> \<lparr>cfg_base_url = None, cfg_model = Some ''gpt'',
      cfg_api_keys = Some [''k0''], cfg_temperature = None, cfg_max_tokens = None\<rparr>]"

definition pool_one :: world where
  "pool_one = snd (init always_constructs ''m'' config_one_key [])"

definition pool_two :: world where
  "pool_two = snd (init always_constructs ''m'' config_two_keys [])"

definition clock_noon :: clock where
  "clock_noon n = 1000"

text \<open>
  A transport that answers every request with HTTP 429 and a \<^verbatim>\<open>Retry-After\<close> header
  in the date form of RFC 9110.
\<close>

definition transport_retry_after_date :: transport where
  "transport_retry_after_date n rq = RateLimitError (Some ''Wed, 21 Oct 2015 07:28:00 GMT'')"

text \<open>A transport that rejects every request for good (say, HTTP 401).\<close>

definition transport_unauthorized :: transport where
  "transport_unauthorized n rq = APIStatusError"

text \<open>A transport whose connection fails every time.\<close>

definition transport_unreachable :: transport where
  "transport_unreachable n rq = APIError"


text \<open>A transport whose completions have no content.\<close>

definition transport_null_content :: transport where
  "transport_null_content n rq = Completion [None]"



text \<open>
  A rate-limit failure at 1000 with \<^verbatim>\<open>Retry-After: 10\<close> and a recovery at 1011, then a
  connection failure at 2000 and a reading of the clock at 2011. The first and third
  requests fail, the others are answered.
\<close>

definition clock_stale :: clock where
  "clock_stale n = (if n = 0 then 1000 else if n = 1 then 1011 else if n = 2 then 2000 else 2011)"

definition transport_stale :: transport where
  "transport_stale n rq =
     (if n = 0 then RateLimitError (Some ''10'') else if n = 2 then APIError
      else Completion [Some ''ok''])"

definition world_recovered :: world where
  "world_recovered = snd (call clock_stale transport_stale ''p'' default_system_prompt pool_one)"

section \<open>Selection: the empty pool and the rotation\<close>

lemma refresh_available:
  "is_available (api_states (self w) ! i) \<Longrightarrow> refresh clk i w = w"
  by (simp add: refresh_def)

lemma scan_available:
  assumes "current_api_index (self w) < length (api_states (self w))"
    and "is_available (api_states (self w) ! current_api_index (self w))"
  shows "scan clk n (Suc k) w =
    (Inr (selected (api_states (self w) ! current_api_index (self w))),
     set_current_api_index ((current_api_index (self w) + 1) mod n) w)"
  using assms by (simp add: refresh_available Let_def)

lemma get_next_available:
  assumes "current_api_index (self w) < length (api_states (self w))"
    and "is_available (api_states (self w) ! current_api_index (self w))"
  shows "get_next_available_client clk w =
    (Inr (selected (api_states (self w) ! current_api_index (self w))),
     set_current_api_index ((current_api_index (self w) + 1) mod length (api_states (self w))) w)"
proof -
  obtain k where k: "length (api_states (self w)) = Suc k"
    using assms(1) by (cases "length (api_states (self w))") auto
  show ?thesis
    unfolding get_next_available_client_def Let_def k [symmetric]
    using assms k scan_available [OF assms, of clk "length (api_states (self w))" k]
    by (simp del: scan.simps)
qed

lemma select_many_available:
  assumes "\<forall>a \<in> set (api_states (self w)). is_available a"
    and "current_api_index (self w) < length (api_states (self w))"
  shows "select_many clk j w =
    (map (\<lambda>i. Inr (selected (api_states (self w) ! ((current_api_index (self w) + i) mod length (api_states (self w)))))) [0..<j],
     set_current_api_index ((current_api_index (self w) + j) mod length (api_states (self w))) w)"
  using assms
proof (induction j arbitrary: w)
  case 0
  then show ?case by (simp add: set_current_api_index_def)
next
  case (Suc j)
  let ?xs = "api_states (self w)"
  let ?c = "current_api_index (self w)"
  let ?w1 = "set_current_api_index ((?c + 1) mod length ?xs) w"
  have g: "get_next_available_client clk w = (Inr (selected (?xs ! ?c)), ?w1)"
    using Suc.prems by (intro get_next_available) auto
  have xs1: "api_states (self ?w1) = ?xs" and c1: "current_api_index (self ?w1) = (?c + 1) mod length ?xs"
    by (simp_all add: set_current_api_index_def)
  have ih: "select_many clk j ?w1 =
    (map (\<lambda>i. Inr (selected (?xs ! (((?c + 1) mod length ?xs + i) mod length ?xs)))) [0..<j],
     set_current_api_index (((?c + 1) mod length ?xs + j) mod length ?xs) ?w1)"
  proof -
    have "0 < length ?xs" using Suc.prems(2) by (cases ?xs) auto
    then have "(?c + 1) mod length ?xs < length ?xs" by simp
    then show ?thesis
      using Suc.IH [of ?w1] Suc.prems(1) unfolding xs1 c1 by blast
  qed
  have m: "\<And>i. ((?c + 1) mod length ?xs + i) mod length ?xs = (?c + Suc i) mod length ?xs"
    by (simp add: mod_add_left_eq)
  have w2: "set_current_api_index (((?c + 1) mod length ?xs + j) mod length ?xs) ?w1
      = set_current_api_index ((?c + Suc j) mod length ?xs) w"
    unfolding m by (simp add: set_current_api_index_def)
  have l: "[0..<Suc j] = 0 # map Suc [0..<j]"
    by (simp add: upt_conv_Cons map_Suc_upt del: upt_Suc)
  have "select_many clk (Suc j) w =
      (Inr (selected (?xs ! ?c)) # fst (select_many clk j ?w1), snd (select_many clk j ?w1))"
    by (simp only: select_many.simps g prod.case split: prod.split) simp
  also have "\<dots> = (Inr (selected (?xs ! ?c)) #
        map (\<lambda>i. Inr (selected (?xs ! ((?c + Suc i) mod length ?xs)))) [0..<j],
      set_current_api_index ((?c + Suc j) mod length ?xs) w)"
    by (simp only: ih m fst_conv snd_conv) (simp add: set_current_api_index_def)
  also have "\<dots> = (map (\<lambda>i. Inr (selected (?xs ! ((?c + i) mod length ?xs)))) [0..<Suc j],
      set_current_api_index ((?c + Suc j) mod length ?xs) w)"
    using Suc.prems(2) by (simp only: l) (simp add: comp_def)
  finally show ?case .
qed

lemma set_current_api_index_same:
  "set_current_api_index (current_api_index (self w)) w = w"
  by (simp add: set_current_api_index_def)

lemma map_rotation:
  assumes "c < length xs"
  shows "map (\<lambda>i. f (xs ! ((c + i) mod length xs))) [0..<length xs] = map f (rotate c xs)"
  by (rule nth_equalityI) (simp_all add: nth_rotate)


text \<open>
  C8. With an empty target list, \<^verbatim>\<open>_get_next_available_client\<close> returns
  \<^verbatim>\<open>(None, None, None)\<close> and changes nothing: not the list, not the cursor, not
  the log, and the clock is not read.
\<close>

theorem select_next_empty_pool:
  "api_states (self w) = [] \<Longrightarrow> get_next_available_client clk w = (Inr (None, None, None), w)"
  by (simp add: get_next_available_client_def)

theorem select_next_empty_pool_witness:
  "api_states (self (set_api_states [] pool_one)) = []
   \<and> get_next_available_client clock_noon (set_api_states [] pool_one)
       = (Inr (None, None, None), set_api_states [] pool_one)"
proof -
  have h: "api_states (self (set_api_states [] pool_one)) = []"
    by (simp add: set_api_states_def)
  show ?thesis
    using h select_next_empty_pool [OF h, of clock_noon] by simp
qed

lemma rotation_from_cursor:
  assumes "\<forall>a \<in> set (api_states (self w)). is_available a"
    and "current_api_index (self w) < length (api_states (self w))"
  shows "select_many clk (length (api_states (self w))) w =
           (map (\<lambda>a. Inr (selected a)) (rotate (current_api_index (self w)) (api_states (self w))), w)
       \<and> (current_api_index (self w) = 0 \<longrightarrow>
            fst (select_many clk (length (api_states (self w))) w) =
              map (\<lambda>a. Inr (selected a)) (api_states (self w)))
       \<and> (distinct (map client (api_states (self w))) \<longrightarrow>
            distinct (fst (select_many clk (length (api_states (self w))) w)))"
proof -
  let ?xs = "api_states (self w)"
  let ?c = "current_api_index (self w)"
  have 1: "select_many clk (length ?xs) w = (map (\<lambda>a. Inr (selected a)) (rotate ?c ?xs), w)"
    unfolding select_many_available [OF assms, of clk "length ?xs"]
    using assms(2) map_rotation [OF assms(2), of "\<lambda>a. Inr (selected a)"]
    by (simp add: set_current_api_index_same)
  have inj: "distinct (map client ?xs) \<Longrightarrow> distinct (map (\<lambda>a. Inr (selected a) :: py_error + selection) (rotate ?c ?xs))"
  proof -
    assume d: "distinct (map client ?xs)"
    have "distinct (map client (rotate ?c ?xs))"
      using d by (simp add: rotate_map [symmetric])
    moreover have "map client (rotate ?c ?xs) =
        map (\<lambda>r. case r of Inr (Some c, _, _) \<Rightarrow> c) (map (\<lambda>a. Inr (selected a) :: py_error + selection) (rotate ?c ?xs))"
      by (simp add: selected_def comp_def)
    ultimately show ?thesis
      by (metis distinct_map)
  qed
  show ?thesis
    unfolding 1 using inj by simp
qed


lemma add_clients_fresh:
  assumes "\<forall>a \<in> set (api_states (self w)). is_available a \<and> client_id (client a) < i"
    and "distinct (map client (api_states (self w)))"
  shows "(\<forall>a \<in> set (api_states (self (add_clients openai base_url mn i keys w))). is_available a)
     \<and> distinct (map client (api_states (self (add_clients openai base_url mn i keys w))))
     \<and> current_api_index (self (add_clients openai base_url mn i keys w)) = current_api_index (self w)"
  using assms
proof (induction keys arbitrary: i w)
  case Nil
  then show ?case by simp
next
  case (Cons api_key keys)
  let ?a = "\<lparr>is_available = True, last_failure_time = 0,
             client = Client i base_url api_key, model_name = mn,
             name = model (self w) @ ''-'' @ show_nat i @ ''@'' @ py_str base_url,
             cooldown_until = None\<rparr>"
  let ?w1 = "if openai base_url api_key
             then set_api_states (api_states (self w) @ [?a]) w
             else info (InitFailed i (model (self w))) w"
  have 1: "\<forall>a \<in> set (api_states (self ?w1)). is_available a \<and> client_id (client a) < Suc i"
    using Cons.prems(1) by (auto simp: set_api_states_def info_def less_Suc_eq)
  have "Client i base_url api_key \<notin> client ` set (api_states (self w))"
  proof
    assume "Client i base_url api_key \<in> client ` set (api_states (self w))"
    then obtain a where "a \<in> set (api_states (self w))" "client a = Client i base_url api_key"
      by auto
    then have "client_id (client a) < i" and "client_id (client a) = i"
      using Cons.prems(1) by auto
    then show False by simp
  qed
  then have 2: "distinct (map client (api_states (self ?w1)))"
    using Cons.prems(2) by (simp add: set_api_states_def info_def)
  have 3: "current_api_index (self ?w1) = current_api_index (self w)"
    by (simp add: set_api_states_def info_def)
  show ?case
    using Cons.IH [OF 1 2] 3 by simp
qed

lemma init_fresh:
  assumes "init openai model0 llm_config log0 = (None, w)"
  shows "(\<forall>a \<in> set (api_states (self w)). is_available a)
     \<and> distinct (map client (api_states (self w)))
     \<and> current_api_index (self w) = 0
     \<and> api_states (self w) \<noteq> []"
proof -
  let ?cfg = "case llm_config model0 of None \<Rightarrow> no_config | Some c \<Rightarrow> c"
  let ?w0 = "\<lparr>self = \<lparr>model = model0, api_states = [], current_api_index = 0,
                          cooldown_period = 300, max_attempts_per_prompt = 5,
                          temperature = 0.7, max_tokens = 4096\<rparr>,
                 ticks = 0, sent = [], logged = log0\<rparr>"
  have w: "w = initialize_clients openai ?cfg ?w0" and ne: "api_states (self w) \<noteq> []"
    using assms by (auto simp: init_def Let_def split: if_splits)
  obtain w2 ks where i: "initialize_clients openai ?cfg ?w0
        = add_clients openai (cfg_base_url ?cfg) (cfg_model ?cfg) 0 ks w2"
      and e: "api_states (self w2) = []" and c: "current_api_index (self w2) = 0"
    by (auto simp: initialize_clients_def Let_def info_def)
  have "(\<forall>a \<in> set (api_states (self w)). is_available a)
     \<and> distinct (map client (api_states (self w)))
     \<and> current_api_index (self w) = current_api_index (self w2)"
    unfolding w i by (rule add_clients_fresh) (simp_all add: e)
  then show ?thesis
    using c ne by simp
qed

text \<open>
  C3. When every target is available and the cursor is in range, as many calls of
  \<^verbatim>\<open>_get_next_available_client\<close> as there are targets return the targets in
  rotation order from the cursor, each position of the list once, and leave the pool as
  it was; when the clients are distinct, so are the results. A pool that construction
  has just built is such a pool, with the cursor at 0 and distinct clients: the calls
  return its targets in construction order, each once.
\<close>

theorem select_next_rotation:
  "((\<forall>a \<in> set (api_states (self w)). is_available a)
      \<and> current_api_index (self w) < length (api_states (self w)) \<longrightarrow>
      select_many clk (length (api_states (self w))) w =
        (map (\<lambda>a. Inr (selected a)) (rotate (current_api_index (self w)) (api_states (self w))), w)
      \<and> (distinct (map client (api_states (self w))) \<longrightarrow>
           distinct (fst (select_many clk (length (api_states (self w))) w))))
   \<and> (init openai model0 llm_config log0 = (None, w0) \<longrightarrow>
        api_states (self w0) \<noteq> []
        \<and> select_many clk (length (api_states (self w0))) w0 =
            (map (\<lambda>a. Inr (selected a)) (api_states (self w0)), w0)
        \<and> distinct (fst (select_many clk (length (api_states (self w0))) w0)))"
proof (intro conjI impI)
  assume h: "(\<forall>a \<in> set (api_states (self w)). is_available a)
      \<and> current_api_index (self w) < length (api_states (self w))"
  then show "select_many clk (length (api_states (self w))) w =
        (map (\<lambda>a. Inr (selected a)) (rotate (current_api_index (self w)) (api_states (self w))), w)"
    using rotation_from_cursor [of w clk] by blast
  assume "distinct (map client (api_states (self w)))"
  then show "distinct (fst (select_many clk (length (api_states (self w))) w))"
    using h rotation_from_cursor [of w clk] by blast
next
  assume i: "init openai model0 llm_config log0 = (None, w0)"
  note f = init_fresh [OF i]
  have c: "current_api_index (self w0) < length (api_states (self w0))"
    using f by (cases "api_states (self w0)") auto
  note r = rotation_from_cursor [of w0 clk]
  show "api_states (self w0) \<noteq> []"
    using f by blast
  show "select_many clk (length (api_states (self w0))) w0 =
            (map (\<lambda>a. Inr (selected a)) (api_states (self w0)), w0)"
    using f c r by simp
  show "distinct (fst (select_many clk (length (api_states (self w0))) w0))"
    using f c r by blast
qed

theorem select_next_rotation_witness:
  "init always_constructs ''m'' config_two_keys [] = (None, pool_two)
   \<and> select_many clock_noon 2 pool_two =
       ([Inr (Some (Client 0 (Some ''u'') ''k0''), Some ''gpt'', Some ''m-0@u''),
         Inr (Some (Client 1 (Some ''u'') ''k1''), Some ''gpt'', Some ''m-1@u'')], pool_two)"
proof -
  have i: "init always_constructs ''m'' config_two_keys [] = (None, pool_two)"
    by code_simp
  have l: "length (api_states (self pool_two)) = 2"
    by code_simp
  have r: "map (\<lambda>a. Inr (selected a) :: py_error + selection) (api_states (self pool_two)) =
       [Inr (Some (Client 0 (Some ''u'') ''k0''), Some ''gpt'', Some ''m-0@u''),
        Inr (Some (Client 1 (Some ''u'') ''k1''), Some ''gpt'', Some ''m-1@u'')]"
    by code_simp
  show ?thesis
    using i select_next_rotation [where ?w0.0 = pool_two and clk = clock_noon
        and openai = always_constructs and ?model0.0 = "''m''" and llm_config = config_two_keys
        and ?log0.0 = "[]"]
    unfolding l using r by simp
qed

section \<open>Exceptions that leave the call\<close>

text \<open>
  C1. The specification states that \<^verbatim>\<open>call\<close> never raises. On a pool of two targets whose
  upstream answers with a rate-limit error carrying a \<^verbatim>\<open>Retry-After\<close> date,
  \<^verbatim>\<open>int(retry_after)\<close> raises \<^verbatim>\<open>ValueError\<close> inside the handler, and the
  exception leaves \<^verbatim>\<open>call\<close> after a single request.
\<close>

theorem call_raises_on_retry_after_date:
  "fst (call clock_noon transport_retry_after_date ''hi'' default_system_prompt pool_two) = Inl ValueError
   \<and> length (sent (snd (call clock_noon transport_retry_after_date ''hi'' default_system_prompt pool_two))) = 1"
  by code_simp

text \<open>
  C2. The specification states that the cursor stays a valid index. On a pool of two targets, the
  first selection moves the cursor to 1; the permanent failure of that attempt then
  shrinks the list to one entry, and the cursor 1 is no index of it. The next selection
  reads the list there and raises \<^verbatim>\<open>IndexError\<close>, which leaves \<^verbatim>\<open>call\<close>.
\<close>

theorem cursor_out_of_range_after_removal:
  "fst (call clock_noon transport_unauthorized ''hi'' default_system_prompt pool_two) = Inl IndexError
   \<and> current_api_index (self (snd (call clock_noon transport_unauthorized ''hi'' default_system_prompt pool_two))) = 1
   \<and> length (api_states (self (snd (call clock_noon transport_unauthorized ''hi'' default_system_prompt pool_two)))) = 1
   \<and> length (sent (snd (call clock_noon transport_unauthorized ''hi'' default_system_prompt pool_two))) = 1"
  by code_simp

section \<open>Construction from an incomplete configuration\<close>

text \<open>
  C5. The specification states that a configuration without a required field gives no target. The
  check of line 52 logs that the configuration is skipped and goes on to the loop: with
  a key list but no model (or no URL), construction succeeds with one target.
\<close>

theorem incomplete_configuration_builds_target:
  "fst (init always_constructs ''m'' config_no_model []) = None
   \<and> length (api_states (self (snd (init always_constructs ''m'' config_no_model [])))) = 1
   \<and> logged (snd (init always_constructs ''m'' config_no_model [])) = [IncompleteConfiguration ''m'']
   \<and> fst (init always_constructs ''m'' config_no_base_url []) = None
   \<and> length (api_states (self (snd (init always_constructs ''m'' config_no_base_url [])))) = 1"
  by code_simp

section \<open>The cooldown\<close>





lemma refresh_cursor: "current_api_index (self (refresh clk j w)) = current_api_index (self w)"
  by (simp add: refresh_def Let_def info_def set_api_states_def)













section \<open>A generic failure after a rate limit\<close>

text \<open>
  C4. The specification states that a generic failure holds the target for the default cooldown of
  300 seconds, whatever an earlier rate limit stored. In \<^term>\<open>world_recovered\<close> the
  target has recovered from a rate limit with \<^verbatim>\<open>Retry-After: 10\<close>. The next call
  fails with an \<^verbatim>\<open>APIError\<close> at 2000; its second attempt, at 2011, finds the
  cooldown over and sends the next request to the same target: the handler of lines 171
  to 181 leaves the stored delay of 10 in place.
\<close>

theorem stale_retry_delay_after_generic_failure:
  "cooldown_period (self world_recovered) = 300
   \<and> map is_available (api_states (self world_recovered)) = [True]
   \<and> fst (call clock_stale transport_stale ''q'' default_system_prompt world_recovered) = Inr ''ok''
   \<and> events_of world_recovered
        (snd (call clock_stale transport_stale ''q'' default_system_prompt world_recovered))
       = [Attempting ''m-0@u'' 1, APIErrorReturned ''m-0@u'', Cooling ''m-0@u'',
          CooldownOver ''m-0@u'', Attempting ''m-0@u'' 2]
   \<and> clock_stale 3 - clock_stale 2 = 11"
  by code_simp

section \<open>The attempt loop: what is sent and what is logged\<close>

lemma refresh_sent: "sent (refresh clk i w) = sent w"
  by (simp add: refresh_def Let_def info_def set_api_states_def)

lemma refresh_logged:
  "\<exists>evs. logged (refresh clk i w) = logged w @ evs \<and> set evs \<subseteq> range CooldownOver"
  by (simp add: refresh_def Let_def info_def set_api_states_def)

lemma scan_sent: "sent (snd (scan clk n k w)) = sent w"
  by (induction k arbitrary: w) (simp_all add: Let_def refresh_sent set_current_api_index_def)

lemma scan_logged:
  "\<exists>evs. logged (snd (scan clk n k w)) = logged w @ evs \<and> set evs \<subseteq> range CooldownOver"
proof (induction k arbitrary: w)
  case 0
  then show ?case by simp
next
  case (Suc k)
  let ?i = "current_api_index (self w)"
  let ?w1 = "refresh clk ?i w"
  let ?w2 = "set_current_api_index ((?i + 1) mod n) ?w1"
  obtain evs1 where e1: "logged ?w1 = logged w @ evs1" "set evs1 \<subseteq> range CooldownOver"
    using refresh_logged by blast
  have l2: "logged ?w2 = logged w @ evs1"
    using e1 by (simp add: set_current_api_index_def)
  obtain evs2 where e2: "logged (snd (scan clk n k ?w2)) = logged ?w2 @ evs2" "set evs2 \<subseteq> range CooldownOver"
    using Suc.IH by blast
  have "logged (snd (scan clk n (Suc k) w)) = logged w
      \<or> logged (snd (scan clk n (Suc k) w)) = logged ?w2
      \<or> logged (snd (scan clk n (Suc k) w)) = logged (snd (scan clk n k ?w2))"
    by (simp add: Let_def)
  then show ?case
    using e1 e2 l2 by (elim disjE) (force, force, rule exI [of _ "evs1 @ evs2"], force)
qed

lemma get_next_sent: "sent (snd (get_next_available_client clk w)) = sent w"
  by (simp add: get_next_available_client_def Let_def scan_sent)

lemma get_next_logged:
  "\<exists>evs. logged (snd (get_next_available_client clk w)) = logged w @ evs \<and> set evs \<subseteq> range CooldownOver"
  using scan_logged [of clk "length (api_states (self w))" "length (api_states (self w))" w]
  by (simp add: get_next_available_client_def Let_def)

lemma on_other_error_frame:
  assumes "on_other_error clk c nm e w = (f, w')"
  shows "f = Continue \<and> sent w' = sent w \<and> (logged w' = logged w @ [e] \<or> logged w' = logged w @ [e, Cooling nm])"
  using assms
  by (auto simp: on_other_error_def Let_def info_def set_api_states_def split: option.splits)

lemma on_rate_limit_frame:
  assumes "on_rate_limit clk c nm h w = (f, w')"
  shows "(f = Continue \<or> f = Raise ValueError) \<and> sent w' = sent w
    \<and> (logged w' = logged w @ [RateLimitReached nm] \<or> (\<exists>d. logged w' = logged w @ [RateLimitReached nm, CoolingFor nm d]))"
  using assms
  by (auto simp: on_rate_limit_def Let_def info_def set_api_states_def split: option.splits if_splits)

lemma on_status_error_frame:
  assumes "on_status_error c nm w = (f, w')"
  shows "sent w' = sent w
    \<and> ((f = Continue \<and> logged w' = logged w @ [PermanentStatusError nm])
       \<or> (f = Break \<and> logged w' = logged w @ [PermanentStatusError nm, AllDisabled]))"
  using assms
  by (auto simp: on_status_error_def Let_def info_def set_api_states_def split: if_splits)


lemma attempt_body_step:
  assumes "attempt_body clk tr msgs a w = (f, w')"
  shows "\<exists>evs. logged w' = logged w @ evs \<and>
     ((sent w' = sent w \<and> AllDisabled \<notin> set evs \<and> f \<noteq> Continue \<and> (\<forall>s. f \<noteq> Return s)
         \<and> (AllUnavailable \<in> set evs \<longrightarrow> f = Break))
      \<or> (\<exists>rq. sent w' = sent w @ [rq] \<and> req_messages rq = msgs \<and> AllUnavailable \<notin> set evs \<and>
            (AllDisabled \<in> set evs \<longrightarrow> f = Break \<and>
               (\<exists>pre nm. evs = pre @ [Attempting nm (Suc a), PermanentStatusError nm, AllDisabled]))))"
proof -
  obtain r w1 where g: "get_next_available_client clk w = (r, w1)"
    by (cases "get_next_available_client clk w")
  have s1: "sent w1 = sent w"
    using get_next_sent [of clk w] g by simp
  obtain evs0 where l1: "logged w1 = logged w @ evs0" and q0: "set evs0 \<subseteq> range CooldownOver"
    using get_next_logged [of clk w] g by auto
  have q0': "AllUnavailable \<notin> set evs0" "AllDisabled \<notin> set evs0"
    using q0 by auto
  show ?thesis
  proof (cases r)
    case (Inl e)
    then have "f = Raise e" "w' = w1"
      using assms g by (simp_all add: attempt_body_def)
    then show ?thesis
      using s1 l1 q0' by auto
  next
    case (Inr sel)
    obtain co mn an where sel: "sel = (co, mn, an)"
      by (cases sel)
    show ?thesis
    proof (cases co)
      case None
      then have "f = Break" "w' = info AllUnavailable w1"
        using assms g Inr sel by (simp_all add: attempt_body_def)
      then show ?thesis
        using s1 l1 q0' by (auto simp: info_def)
    next
      case (Some c)
      let ?nm = "py_str an"
      let ?w2 = "info (Attempting ?nm (Suc a)) w1"
      let ?rq = "\<lparr>req_client = c, req_model = mn, req_messages = msgs,
                  req_temperature = temperature (self ?w2), req_max_tokens = max_tokens (self ?w2)\<rparr>"
      let ?w3 = "?w2\<lparr>sent := sent ?w2 @ [?rq]\<rparr>"
      have s3: "sent ?w3 = sent w @ [?rq]"
        using s1 by (simp add: info_def)
      have l3: "logged ?w3 = logged w @ evs0 @ [Attempting ?nm (Suc a)]"
        using l1 by (simp add: info_def)
      have body: "(f, w') =
         (case tr (length (sent ?w2)) ?rq of
            Completion [] \<Rightarrow> on_other_error clk c ?nm (UnknownError ?nm) ?w3
          | Completion (content # _) \<Rightarrow> (Return (py_strip (py_str content)), ?w3)
          | RateLimitError retry_after \<Rightarrow> on_rate_limit clk c ?nm retry_after ?w3
          | APIStatusError \<Rightarrow> on_status_error c ?nm ?w3
          | APIError \<Rightarrow> on_other_error clk c ?nm (APIErrorReturned ?nm) ?w3
          | OtherException \<Rightarrow> on_other_error clk c ?nm (UnknownError ?nm) ?w3)"
        unfolding assms [symmetric] by (simp add: attempt_body_def g Inr sel Some Let_def)
      have goal: "\<exists>evs. logged w' = logged w @ evs \<and> sent w' = sent w @ [?rq] \<and> AllUnavailable \<notin> set evs \<and>
            (AllDisabled \<in> set evs \<longrightarrow> f = Break \<and>
               (\<exists>pre nm. evs = pre @ [Attempting nm (Suc a), PermanentStatusError nm, AllDisabled]))"
      proof (cases "tr (length (sent ?w2)) ?rq")
        case (Completion choices)
        show ?thesis
        proof (cases choices)
          case Nil
          have "on_other_error clk c ?nm (UnknownError ?nm) ?w3 = (f, w')"
            using body Completion Nil by simp
          from on_other_error_frame [OF this] show ?thesis
            unfolding s3 l3 using q0' by (elim conjE disjE) auto
        next
          case (Cons content rest)
          then have "f = Return (py_strip (py_str content))" "w' = ?w3"
            using body Completion by simp_all
          then show ?thesis
            using s3 l3 q0' by auto
        qed
      next
        case (RateLimitError h)
        have "on_rate_limit clk c ?nm h ?w3 = (f, w')"
          using body RateLimitError by simp
        from on_rate_limit_frame [OF this] show ?thesis
          unfolding s3 l3 using q0' by (elim conjE disjE exE) auto
      next
        case APIStatusError
        have "on_status_error c ?nm ?w3 = (f, w')"
          using body APIStatusError by simp
        from on_status_error_frame [OF this] show ?thesis
          unfolding s3 l3 using q0' by (elim conjE disjE) auto
      next
        case APIError
        have "on_other_error clk c ?nm (APIErrorReturned ?nm) ?w3 = (f, w')"
          using body APIError by simp
        from on_other_error_frame [OF this] show ?thesis
          unfolding s3 l3 using q0' by (elim conjE disjE) auto
      next
        case OtherException
        have "on_other_error clk c ?nm (UnknownError ?nm) ?w3 = (f, w')"
          using body OtherException by simp
        from on_other_error_frame [OF this] show ?thesis
          unfolding s3 l3 using q0' by (elim conjE disjE) auto
      qed
      then show ?thesis
        by (metis request.select_convs(3))
    qed
  qed
qed


lemma attempts_trace:
  assumes "attempts clk tr msgs a k w = (f, w')"
  shows "\<exists>evs rqs. logged w' = logged w @ evs \<and> sent w' = sent w @ rqs \<and> length rqs \<le> k
     \<and> (\<forall>rq \<in> set rqs. req_messages rq = msgs)
     \<and> (AllUnavailable \<in> set evs \<longrightarrow> length rqs < k)
     \<and> (AllDisabled \<in> set evs \<longrightarrow> f = Break \<and>
          (\<exists>pre nm. evs = pre @ [Attempting nm (a + length rqs), PermanentStatusError nm, AllDisabled]))"
  using assms
proof (induction k arbitrary: a w)
  case 0
  then have "w' = w" by simp
  then show ?case by simp
next
  case (Suc k)
  obtain f1 w1 where b: "attempt_body clk tr msgs a w = (f1, w1)"
    by (cases "attempt_body clk tr msgs a w")
  from attempt_body_step [OF b] obtain evs1 where
    l1: "logged w1 = logged w @ evs1" and
    d1: "(sent w1 = sent w \<and> AllDisabled \<notin> set evs1 \<and> f1 \<noteq> Continue \<and> (\<forall>s. f1 \<noteq> Return s)
           \<and> (AllUnavailable \<in> set evs1 \<longrightarrow> f1 = Break))
      \<or> (\<exists>rq. sent w1 = sent w @ [rq] \<and> req_messages rq = msgs \<and> AllUnavailable \<notin> set evs1 \<and>
            (AllDisabled \<in> set evs1 \<longrightarrow> f1 = Break \<and>
               (\<exists>pre nm. evs1 = pre @ [Attempting nm (Suc a), PermanentStatusError nm, AllDisabled])))"
    by blast
  show ?case
  proof (cases "f1 = Continue")
    case True
    then have r: "attempts clk tr msgs (Suc a) k w1 = (f, w')"
      using Suc.prems b by simp
    from d1 True obtain rq where
      s1: "sent w1 = sent w @ [rq]" and m1: "req_messages rq = msgs" and
      q1: "AllUnavailable \<notin> set evs1" "AllDisabled \<notin> set evs1"
      by auto
    from Suc.IH [OF r] obtain evs2 rqs2 where
      l2: "logged w' = logged w1 @ evs2" and s2: "sent w' = sent w1 @ rqs2" and
      n2: "length rqs2 \<le> k" and m2: "\<forall>rq \<in> set rqs2. req_messages rq = msgs" and
      u2: "AllUnavailable \<in> set evs2 \<longrightarrow> length rqs2 < k" and
      p2: "AllDisabled \<in> set evs2 \<longrightarrow> f = Break \<and>
          (\<exists>pre nm. evs2 = pre @ [Attempting nm (Suc a + length rqs2), PermanentStatusError nm, AllDisabled])"
      by blast
    have p: "AllDisabled \<in> set (evs1 @ evs2) \<longrightarrow> f = Break \<and>
          (\<exists>pre nm. evs1 @ evs2 = pre @ [Attempting nm (a + length (rq # rqs2)), PermanentStatusError nm, AllDisabled])"
    proof
      assume "AllDisabled \<in> set (evs1 @ evs2)"
      then have "AllDisabled \<in> set evs2" using q1 by simp
      with p2 obtain pre nm where "f = Break"
        "evs2 = pre @ [Attempting nm (Suc a + length rqs2), PermanentStatusError nm, AllDisabled]"
        by blast
      then have "f = Break \<and> evs1 @ evs2 = (evs1 @ pre) @ [Attempting nm (a + length (rq # rqs2)), PermanentStatusError nm, AllDisabled]"
        by simp
      then show "f = Break \<and>
          (\<exists>pre nm. evs1 @ evs2 = pre @ [Attempting nm (a + length (rq # rqs2)), PermanentStatusError nm, AllDisabled])"
        by blast
    qed
    show ?thesis
      apply (rule exI [of _ "evs1 @ evs2"])
      apply (rule exI [of _ "rq # rqs2"])
      using l1 l2 s1 s2 n2 m1 m2 u2 q1 p by auto
  next
    case False
    then have r: "f = f1" "w' = w1"
      using Suc.prems b by (cases f1; simp)+
    from d1 show ?thesis
    proof
      assume h: "sent w1 = sent w \<and> AllDisabled \<notin> set evs1 \<and> f1 \<noteq> Continue \<and> (\<forall>s. f1 \<noteq> Return s)
           \<and> (AllUnavailable \<in> set evs1 \<longrightarrow> f1 = Break)"
      show ?thesis
        apply (rule exI [of _ evs1])
        apply (rule exI [of _ "[]"])
        using l1 h r by simp
    next
      assume "\<exists>rq. sent w1 = sent w @ [rq] \<and> req_messages rq = msgs \<and> AllUnavailable \<notin> set evs1 \<and>
            (AllDisabled \<in> set evs1 \<longrightarrow> f1 = Break \<and>
               (\<exists>pre nm. evs1 = pre @ [Attempting nm (Suc a), PermanentStatusError nm, AllDisabled]))"
      then obtain rq where h: "sent w1 = sent w @ [rq]" "req_messages rq = msgs" "AllUnavailable \<notin> set evs1"
            "AllDisabled \<in> set evs1 \<longrightarrow> f1 = Break \<and>
               (\<exists>pre nm. evs1 = pre @ [Attempting nm (Suc a), PermanentStatusError nm, AllDisabled])"
        by blast
      show ?thesis
        apply (rule exI [of _ evs1])
        apply (rule exI [of _ "[rq]"])
        using l1 h r by simp
    qed
  qed
qed

lemma call_trace:
  assumes "call clk tr prompt sys w = (r, w')"
  shows "\<exists>evs rqs. logged w' = logged w @ evs \<and> sent w' = sent w @ rqs
     \<and> length rqs \<le> max_attempts_per_prompt (self w)
     \<and> (\<forall>rq \<in> set rqs. req_messages rq = build_messages prompt sys)
     \<and> (AllUnavailable \<in> set evs \<longrightarrow> length rqs < max_attempts_per_prompt (self w))
     \<and> (AllDisabled \<in> set evs \<longrightarrow>
          (\<exists>pre nm. evs = pre @ [Attempting nm (length rqs), PermanentStatusError nm, AllDisabled, AllFailed]))"
proof -
  let ?K = "max_attempts_per_prompt (self w)"
  let ?m = "build_messages prompt sys"
  obtain f w1 where a: "attempts clk tr ?m 0 ?K w = (f, w1)"
    by (cases "attempts clk tr ?m 0 ?K w")
  from attempts_trace [OF a] obtain evs rqs where
    l: "logged w1 = logged w @ evs" and s: "sent w1 = sent w @ rqs" and
    n: "length rqs \<le> ?K" and m: "\<forall>rq \<in> set rqs. req_messages rq = ?m" and
    u: "AllUnavailable \<in> set evs \<longrightarrow> length rqs < ?K" and
    p: "AllDisabled \<in> set evs \<longrightarrow> f = Break \<and>
          (\<exists>pre nm. evs = pre @ [Attempting nm (0 + length rqs), PermanentStatusError nm, AllDisabled])"
    by blast
  show ?thesis
  proof (cases "f = Break \<or> f = Continue")
    case True
    then have w': "w' = info AllFailed w1"
      using assms a by (auto simp: call_def)
    show ?thesis
      apply (rule exI [of _ "evs @ [AllFailed]"])
      apply (rule exI [of _ rqs])
      using l s n m u p w' by (auto simp: info_def)
  next
    case False
    then have w': "w' = w1"
      using assms a by (cases f) (auto simp: call_def)
    show ?thesis
      apply (rule exI [of _ evs])
      apply (rule exI [of _ rqs])
      using l s n m u p w' False by auto
  qed
qed

lemma call_trace_of:
  assumes "call clk tr prompt sys w = (r, w')"
  shows "logged w' = logged w @ events_of w w' \<and> sent w' = sent w @ requests_of w w'
     \<and> length (requests_of w w') \<le> max_attempts_per_prompt (self w)
     \<and> (\<forall>rq \<in> set (requests_of w w'). req_messages rq = build_messages prompt sys)
     \<and> (AllUnavailable \<in> set (events_of w w') \<longrightarrow>
          length (requests_of w w') < max_attempts_per_prompt (self w))
     \<and> (AllDisabled \<in> set (events_of w w') \<longrightarrow>
          (\<exists>pre nm. events_of w w' = pre @ [Attempting nm (length (requests_of w w')),
                        PermanentStatusError nm, AllDisabled, AllFailed]))"
proof -
  from call_trace [OF assms] obtain evs rqs where
    l: "logged w' = logged w @ evs" and s: "sent w' = sent w @ rqs" and
    rest: "length rqs \<le> max_attempts_per_prompt (self w)"
      "\<forall>rq \<in> set rqs. req_messages rq = build_messages prompt sys"
      "AllUnavailable \<in> set evs \<longrightarrow> length rqs < max_attempts_per_prompt (self w)"
      "AllDisabled \<in> set evs \<longrightarrow>
          (\<exists>pre nm. evs = pre @ [Attempting nm (length rqs), PermanentStatusError nm, AllDisabled, AllFailed])"
    by blast
  have e: "events_of w w' = evs" by (simp add: events_of_def l)
  have r: "requests_of w w' = rqs" by (simp add: requests_of_def s)
  show ?thesis
    unfolding e r using l s rest by blast
qed

text \<open>
  C6. A call sends at most \<^verbatim>\<open>max_attempts_per_prompt\<close> requests upstream, whatever
  the transport and the clock do and however the call ends. It sends strictly fewer when
  a selection returned none (the warning of line 122 is in the log). When the pool became
  empty (the error of line 168 is in the log), the log of the call ends with the attempt
  in which that happened, and the number of requests sent is the number of that attempt:
  strictly fewer than the budget when the attempt was not the last one.
\<close>

theorem call_within_budget:
  assumes "call clk tr prompt sys w = (r, w')"
  shows "sent w' = sent w @ requests_of w w'
       \<and> logged w' = logged w @ events_of w w'
       \<and> length (requests_of w w') \<le> max_attempts_per_prompt (self w)
       \<and> (AllUnavailable \<in> set (events_of w w') \<longrightarrow>
            length (requests_of w w') < max_attempts_per_prompt (self w))
       \<and> (AllDisabled \<in> set (events_of w w') \<longrightarrow>
            (\<exists>pre nm. events_of w w' = pre @ [Attempting nm (length (requests_of w w')),
                          PermanentStatusError nm, AllDisabled, AllFailed]))
       \<and> (\<forall>pre nm j. events_of w w' = pre @ [Attempting nm j, PermanentStatusError nm, AllDisabled, AllFailed]
              \<and> j < max_attempts_per_prompt (self w) \<longrightarrow>
            length (requests_of w w') < max_attempts_per_prompt (self w))"
proof -
  note t = call_trace_of [OF assms]
  have last: "\<forall>pre nm j. events_of w w' = pre @ [Attempting nm j, PermanentStatusError nm, AllDisabled, AllFailed]
              \<and> j < max_attempts_per_prompt (self w) \<longrightarrow>
            length (requests_of w w') < max_attempts_per_prompt (self w)"
  proof (intro allI impI)
    fix pre nm j
    assume h: "events_of w w' = pre @ [Attempting nm j, PermanentStatusError nm, AllDisabled, AllFailed]
              \<and> j < max_attempts_per_prompt (self w)"
    then have "AllDisabled \<in> set (events_of w w')" by simp
    with t obtain pre' nm' where
      "events_of w w' = pre' @ [Attempting nm' (length (requests_of w w')),
                          PermanentStatusError nm', AllDisabled, AllFailed]"
      by blast
    with h have "pre @ [Attempting nm j, PermanentStatusError nm, AllDisabled, AllFailed]
        = pre' @ [Attempting nm' (length (requests_of w w')), PermanentStatusError nm', AllDisabled, AllFailed]"
      by simp
    then have "j = length (requests_of w w')" by simp
    with h show "length (requests_of w w') < max_attempts_per_prompt (self w)" by simp
  qed
  show ?thesis
    using t last by blast
qed

theorem call_within_budget_witness:
  "AllUnavailable \<in> set (events_of pool_one
       (snd (call clock_noon transport_unreachable ''hi'' default_system_prompt pool_one)))
   \<and> length (requests_of pool_one
       (snd (call clock_noon transport_unreachable ''hi'' default_system_prompt pool_one)))
      < max_attempts_per_prompt (self pool_one)
   \<and> events_of pool_one (snd (call clock_noon transport_unauthorized ''hi'' default_system_prompt pool_one))
      = [] @ [Attempting ''m-0@u'' 1, PermanentStatusError ''m-0@u'', AllDisabled, AllFailed]
   \<and> 1 < max_attempts_per_prompt (self pool_one)
   \<and> length (requests_of pool_one
       (snd (call clock_noon transport_unauthorized ''hi'' default_system_prompt pool_one)))
      < max_attempts_per_prompt (self pool_one)"
proof -
  let ?a = "call clock_noon transport_unreachable ''hi'' default_system_prompt pool_one"
  let ?b = "call clock_noon transport_unauthorized ''hi'' default_system_prompt pool_one"
  have a: "AllUnavailable \<in> set (events_of pool_one (snd ?a))"
    by code_simp
  have b: "events_of pool_one (snd ?b)
      = [] @ [Attempting ''m-0@u'' 1, PermanentStatusError ''m-0@u'', AllDisabled, AllFailed]"
    by code_simp
  have k: "1 < max_attempts_per_prompt (self pool_one)"
    by code_simp
  have 1: "length (requests_of pool_one (snd ?a)) < max_attempts_per_prompt (self pool_one)"
    using call_within_budget [of clock_noon transport_unreachable "''hi''" default_system_prompt
        pool_one "fst ?a" "snd ?a"] a
    by simp
  have 2: "length (requests_of pool_one (snd ?b)) < max_attempts_per_prompt (self pool_one)"
    using call_within_budget [of clock_noon transport_unauthorized "''hi''" default_system_prompt
        pool_one "fst ?b" "snd ?b"] b k
    by (metis prod.collapse)
  show ?thesis
    using a b k 1 2 by blast
qed

text \<open>
  C9. Every request a call sends upstream carries the message list built at the start of
  the call: the user message alone when the system prompt is empty, the system message
  followed by the user message when it is not (the default prompt included).
\<close>

theorem system_message_iff_nonempty:
  assumes "call clk tr prompt sys w = (r, w')"
  shows "(\<forall>rq \<in> set (requests_of w w'). req_messages rq = build_messages prompt sys)
       \<and> sent w' = sent w @ requests_of w w'
       \<and> build_messages prompt [] = [(''user'', prompt)]
       \<and> (sys \<noteq> [] \<longrightarrow> build_messages prompt sys = [(''system'', sys), (''user'', prompt)])
       \<and> build_messages prompt default_system_prompt
           = [(''system'', default_system_prompt), (''user'', prompt)]"
  using call_trace_of [OF assms]
  by (simp add: build_messages_def default_system_prompt_def)

theorem system_message_iff_nonempty_witness:
  "map req_messages (requests_of pool_one
       (snd (call clock_noon transport_null_content ''hi'' [] pool_one)))
     = [[(''user'', ''hi'')]]
   \<and> map req_messages (requests_of pool_one
       (snd (call clock_noon transport_null_content ''hi'' ''Be brief.'' pool_one)))
     = [[(''system'', ''Be brief.''), (''user'', ''hi'')]]"
proof -
  let ?a = "call clock_noon transport_null_content ''hi'' [] pool_one"
  let ?b = "call clock_noon transport_null_content ''hi'' ''Be brief.'' pool_one"
  have la: "length (requests_of pool_one (snd ?a)) = 1" by code_simp
  have lb: "length (requests_of pool_one (snd ?b)) = 1" by code_simp
  obtain x where x: "requests_of pool_one (snd ?a) = [x]"
    using la by (cases "requests_of pool_one (snd ?a)") auto
  obtain y where y: "requests_of pool_one (snd ?b) = [y]"
    using lb by (cases "requests_of pool_one (snd ?b)") auto
  have 1: "req_messages x = [(''user'', ''hi'')]"
    using system_message_iff_nonempty [of clock_noon transport_null_content "''hi''" "[]"
        pool_one "fst ?a" "snd ?a"] x
    by simp
  have 2: "req_messages y = [(''system'', ''Be brief.''), (''user'', ''hi'')]"
    using system_message_iff_nonempty [of clock_noon transport_null_content "''hi''" "''Be brief.''"
        pool_one "fst ?b" "snd ?b"] y
    by simp
  show ?thesis
    using x y 1 2 by simp
qed

section \<open>The value of a successful attempt\<close>








end
